theory Spec2Isabelle
  imports Main
begin

section \<open>The resumable downloader of \<^verbatim>\<open>src/downloader.py\<close>\<close>

text \<open>
  \<^verbatim>\<open>FileDownloader.download_file\<close> talks to a network and a disk. Both are made
  explicit: the disk is a value that is passed in and returned, and the network is a
  script of answers, one per request the code sends, consumed in order. Every call
  the code makes to the outside (HEAD, GET, the connectivity probe, \<^verbatim>\<open>time.sleep\<close>,
  \<^verbatim>\<open>open\<close>, \<^verbatim>\<open>file.write\<close>, the progress bar, \<^verbatim>\<open>os.replace\<close>) is recorded, in
  order, in a list of actions that the functions return.

  All counts of the program are counts of bytes or of retries: they come from
  \<^verbatim>\<open>len\<close>, \<^verbatim>\<open>os.path.getsize\<close>, a \<^verbatim>\<open>Content-Length\<close> header and a counter
  that starts at 0, and the code never subtracts. They are natural numbers here.
  The disk is taken to be reliable (\<^verbatim>\<open>open\<close>, \<^verbatim>\<open>write\<close> and \<^verbatim>\<open>os.replace\<close> do not
  raise) and to be changed by this transfer only.
\<close>

subsection \<open>Exceptions\<close>

text \<open>
  The exception classes the handlers of the source tell apart. The subclass relation
  is the one of the libraries the source imports:
  \<^verbatim>\<open>requests.exceptions\<close> declares \<^verbatim>\<open>ConnectionError(RequestException)\<close>,
  \<^verbatim>\<open>Timeout(RequestException)\<close>, \<^verbatim>\<open>ConnectTimeout(ConnectionError, Timeout)\<close>,
  \<^verbatim>\<open>ReadTimeout(Timeout)\<close>, \<^verbatim>\<open>HTTPError(RequestException)\<close> and
  \<^verbatim>\<open>ChunkedEncodingError(RequestException)\<close>; \<^verbatim>\<open>urllib3.exceptions\<close> declares
  \<^verbatim>\<open>ProtocolError\<close> and \<^verbatim>\<open>IncompleteRead\<close>, neither a \<^verbatim>\<open>RequestException\<close>.
  A failed name resolution and a refused or reset connection reach the caller of
  \<^verbatim>\<open>requests.get\<close> as \<^verbatim>\<open>requests.ConnectionError\<close>. A stream that breaks or
  ends short while \<^verbatim>\<open>iter_content\<close> reads it is a \<^verbatim>\<open>ProtocolError\<close> of urllib3
  (an \<^verbatim>\<open>IncompleteRead\<close> is turned into one), and \<^verbatim>\<open>iter_content\<close> raises it again
  as \<^verbatim>\<open>requests.ChunkedEncodingError\<close>.
\<close>

datatype exn =
    ConnectionError
  | ConnectTimeout
  | ReadTimeout
  | HTTPError
  | ChunkedEncodingError
  | OtherRequestException
  | ProtocolError
  | IncompleteRead
  | ValueError
  | OtherException

text \<open>\<^verbatim>\<open>isinstance(e, requests.ConnectionError)\<close>.\<close>

fun is_ConnectionError :: "exn \<Rightarrow> bool" where
  "is_ConnectionError ConnectionError = True"
| "is_ConnectionError ConnectTimeout = True"
| "is_ConnectionError _ = False"

text \<open>\<^verbatim>\<open>isinstance(e, requests.RequestException)\<close>.\<close>

fun is_RequestException :: "exn \<Rightarrow> bool" where
  "is_RequestException ConnectionError = True"
| "is_RequestException ConnectTimeout = True"
| "is_RequestException ReadTimeout = True"
| "is_RequestException HTTPError = True"
| "is_RequestException ChunkedEncodingError = True"
| "is_RequestException OtherRequestException = True"
| "is_RequestException _ = False"

text \<open>
  The first handler of the download loop, line 112:
  \<^verbatim>\<open>except (requests.ConnectionError, ProtocolError, IncompleteRead)\<close>.
\<close>

definition is_connection_loss :: "exn \<Rightarrow> bool" where
  "is_connection_loss e \<longleftrightarrow> is_ConnectionError e \<or> e = ProtocolError \<or> e = IncompleteRead"

subsection \<open>The outside world\<close>

type_synonym bytes = string

text \<open>
  What the \<^verbatim>\<open>Content-Length\<close> header of the HEAD response is to
  \<^verbatim>\<open>int(response.headers.get("Content-Length", 0))\<close>: absent, a text that \<^verbatim>\<open>int\<close>
  reads as a number, or a text on which \<^verbatim>\<open>int\<close> raises \<^verbatim>\<open>ValueError\<close>.
\<close>

datatype content_length = NoHeader | Parsed nat | Malformed

datatype head_result = HeadRaises exn | HeadResponse nat content_length

text \<open>
  The answer to one \<^verbatim>\<open>requests.get(url, headers=headers, stream=True, timeout=30)\<close>:
  the call raises, or it returns a response with a status code whose
  \<^verbatim>\<open>iter_content\<close> yields the given chunks and then ends, normally (\<open>None\<close>) or by
  raising.
\<close>

datatype response = GetRaises exn | Response nat "bytes list" "exn option"

text \<open>The answer to one \<^verbatim>\<open>requests.get(SAFE_URL, timeout=5)\<close> of \<^verbatim>\<open>_check_internet\<close>.\<close>

datatype probe = ProbeResponds | ProbeRaises exn

text \<open>
  One entry of the script of a transfer: the answer to a GET of the loop, and the
  answers to the connectivity probes that follow it if the first handler runs.
\<close>

type_synonym attempt_env = "response \<times> probe list"

record target_env =
  head :: head_result
  attempts :: "attempt_env list"

datatype open_mode = Append | Truncate

datatype action =
    Head
  | Get "nat option"
  | CheckInternet
  | Sleep nat
  | Open open_mode
  | Write bytes
  | BarUpdate nat
  | BarSet nat
  | Replace

text \<open>
  The part of the disk and of the display that belongs to one file name: the file
  in the temporary directory, the file in the download directory (\<open>None\<close>: no such
  file), and the counter \<^verbatim>\<open>n\<close> of the file's progress bar.
\<close>

record store =
  temp :: "bytes option"
  final :: "bytes option"
  bar_n :: nat

text \<open>The local variables of \<^verbatim>\<open>download_file\<close> that the loop changes.\<close>

record locals =
  start_bytes :: nat
  headers :: "nat option"
  retries :: nat

record config =
  retry_delay :: nat
  max_retries :: nat

text \<open>How a call of \<^verbatim>\<open>download_file\<close> ends.\<close>

datatype outcome =
    AlreadyDownloaded
  | Completed
  | Failed
  | Raised exn
  | Pending

text \<open>
  \<open>AlreadyDownloaded\<close> is the return of line 82, \<open>Completed\<close> the return of line 111,
  \<open>Failed\<close> the fall through the loop to line 124, \<open>Raised e\<close> an exception that leaves
  the function. \<open>Pending\<close> is no return: the script has no answer to the request the
  code has just sent, so the worker is still waiting.
\<close>

subsection \<open>The helpers of the class\<close>

text \<open>\<^verbatim>\<open>response.raise_for_status()\<close> raises \<^verbatim>\<open>HTTPError\<close> on a 4xx or 5xx status.\<close>

definition raises_for_status :: "nat \<Rightarrow> bool" where
  "raises_for_status status \<longleftrightarrow> 400 \<le> status \<and> status < 600"

definition get_file_size :: "head_result \<Rightarrow> exn + nat" where
  "get_file_size h =
     (case h of
        HeadRaises e \<Rightarrow> if is_RequestException e then Inr 0 else Inl e
      | HeadResponse status cl \<Rightarrow>
          if raises_for_status status then Inr 0
          else (case cl of
                  NoHeader \<Rightarrow> Inr 0
                | Parsed n \<Rightarrow> Inr n
                | Malformed \<Rightarrow> Inl ValueError))"

definition file_size :: "bytes option \<Rightarrow> nat" where
  "file_size f = (case f of None \<Rightarrow> 0 | Some b \<Rightarrow> length b)"

definition get_existing_download_size :: "store \<Rightarrow> bool \<Rightarrow> nat" where
  "get_existing_download_size s in_temp = file_size (if in_temp then temp s else final s)"

definition check_internet :: "probe \<Rightarrow> exn + bool" where
  "check_internet p =
     (case p of
        ProbeResponds \<Rightarrow> Inr True
      | ProbeRaises e \<Rightarrow> if is_ConnectionError e then Inr False else Inl e)"

subsection \<open>The body of the loop\<close>

text \<open>\<^verbatim>\<open>open(temp_path, mode)\<close>: \<^verbatim>\<open>"ab"\<close> keeps the content, \<^verbatim>\<open>"wb"\<close> empties it; both create the file.\<close>

definition open_file :: "open_mode \<Rightarrow> bytes option \<Rightarrow> bytes option" where
  "open_file mode f =
     (case mode of
        Truncate \<Rightarrow> Some []
      | Append \<Rightarrow> (case f of None \<Rightarrow> Some [] | Some b \<Rightarrow> Some b))"

definition file_write :: "bytes option \<Rightarrow> bytes \<Rightarrow> bytes option" where
  "file_write f c = (case f of None \<Rightarrow> Some c | Some b \<Rightarrow> Some (b @ c))"

text \<open>Lines 99 to 104: the loop over \<^verbatim>\<open>response.iter_content\<close>.\<close>

fun stream_chunks :: "bytes list \<Rightarrow> locals \<Rightarrow> store \<Rightarrow> locals \<times> store \<times> action list" where
  "stream_chunks [] l s = (l, s, [])"
| "stream_chunks (c # cs) l s =
     (if c \<noteq> [] then
        (case stream_chunks cs
                (l\<lparr>start_bytes := start_bytes l + length c\<rparr>)
                (s\<lparr>temp := file_write (temp s) c, bar_n := bar_n s + length c\<rparr>) of
           (l', s', as) \<Rightarrow> (l', s', Write c # BarUpdate (length c) # as))
      else stream_chunks cs l s)"

text \<open>
  Lines 89 to 111, the body of the \<^verbatim>\<open>try\<close>: the exception it ends with (\<open>None\<close>: it
  reached the \<^verbatim>\<open>return\<close> of line 111), and the variables, the disk and the actions
  at that point.
\<close>

definition try_body :: "nat \<Rightarrow> locals \<Rightarrow> store \<Rightarrow> response \<Rightarrow> exn option \<times> locals \<times> store \<times> action list" where
  "try_body total_size l s r =
     (case r of
        GetRaises e \<Rightarrow> (Some e, l, s, [Get (headers l)])
      | Response status chunks ending \<Rightarrow>
          if raises_for_status status then (Some HTTPError, l, s, [Get (headers l)])
          else
            let l1 = (if start_bytes l > 0 \<and> status \<noteq> 206
                      then l\<lparr>start_bytes := 0, headers := None\<rparr> else l);
                mode = (if start_bytes l1 > 0 then Append else Truncate);
                s1 = s\<lparr>temp := open_file mode (temp s)\<rparr>
            in (case stream_chunks chunks l1 s1 of
                  (l2, s2, as) \<Rightarrow>
                    (case ending of
                       Some e \<Rightarrow> (Some e, l2, s2, Get (headers l) # Open mode # as)
                     | None \<Rightarrow>
                         (None, l2,
                          s2\<lparr>temp := None, final := temp s2, bar_n := total_size\<rparr>,
                          Get (headers l) # Open mode # as @ [Replace, BarSet total_size]))))"

text \<open>Lines 114 to 116: \<^verbatim>\<open>while not self._check_internet(): ... time.sleep(self.retry_delay)\<close>.\<close>

datatype wait_result = Online | Blocked | WaitRaised exn

fun wait_for_internet :: "nat \<Rightarrow> probe list \<Rightarrow> wait_result \<times> action list" where
  "wait_for_internet d [] = (Blocked, [CheckInternet])"
| "wait_for_internet d (p # ps) =
     (case check_internet p of
        Inl e \<Rightarrow> (WaitRaised e, [CheckInternet])
      | Inr True \<Rightarrow> (Online, [CheckInternet])
      | Inr False \<Rightarrow>
          (case wait_for_internet d ps of
             (w, as) \<Rightarrow> (w, CheckInternet # Sleep d # as)))"

text \<open>How one pass through the loop body ends.\<close>

datatype step = Return | Continue | Raise exn | Block

text \<open>One pass through the body of \<^verbatim>\<open>while retries <= self.max_retries\<close>, lines 88 to 122.\<close>

definition attempt :: "config \<Rightarrow> nat \<Rightarrow> locals \<Rightarrow> store \<Rightarrow> attempt_env \<Rightarrow> step \<times> locals \<times> store \<times> action list" where
  "attempt cfg total_size l s a =
     (case try_body total_size l s (fst a) of
        (None, l', s', as) \<Rightarrow> (Return, l', s', as)
      | (Some e, l', s', as) \<Rightarrow>
          if is_connection_loss e then
            (case wait_for_internet (retry_delay cfg) (snd a) of
               (Online, ws) \<Rightarrow>
                 (Continue,
                  l'\<lparr>start_bytes := get_existing_download_size s' True,
                     headers := Some (get_existing_download_size s' True)\<rparr>,
                  s', as @ ws)
             | (Blocked, ws) \<Rightarrow> (Block, l', s', as @ ws)
             | (WaitRaised e', ws) \<Rightarrow> (Raise e', l', s', as @ ws))
          else if is_RequestException e then
            (Continue, l'\<lparr>retries := retries l' + 1\<rparr>, s', as @ [Sleep (retry_delay cfg)])
          else (Raise e, l', s', as))"

definition after :: "action list \<Rightarrow> outcome \<times> locals \<times> store \<times> action list \<Rightarrow> outcome \<times> locals \<times> store \<times> action list" where
  "after as r = (case r of (out, l, s, bs) \<Rightarrow> (out, l, s, as @ bs))"

text \<open>Lines 87 to 124: the loop, and the fall through it.\<close>

fun download_loop :: "config \<Rightarrow> nat \<Rightarrow> locals \<Rightarrow> store \<Rightarrow> attempt_env list \<Rightarrow> outcome \<times> locals \<times> store \<times> action list" where
  "download_loop cfg total_size l s [] =
     (if retries l \<le> max_retries cfg then (Pending, l, s, [Get (headers l)])
      else (Failed, l, s, []))"
| "download_loop cfg total_size l s (a # script) =
     (if retries l \<le> max_retries cfg then
        (case attempt cfg total_size l s a of
           (Return, l', s', as) \<Rightarrow> (Completed, l', s', as)
         | (Continue, l', s', as) \<Rightarrow> after as (download_loop cfg total_size l' s' script)
         | (Raise e, l', s', as) \<Rightarrow> (Raised e, l', s', as)
         | (Block, l', s', as) \<Rightarrow> (Pending, l', s', as))
      else (Failed, l, s, []))"

text \<open>Lines 67 to 124.\<close>

definition download_file :: "config \<Rightarrow> target_env \<Rightarrow> store \<Rightarrow> outcome \<times> store \<times> action list" where
  "download_file cfg env s =
     (case get_file_size (head env) of
        Inl e \<Rightarrow> (Raised e, s, [Head])
      | Inr total_size \<Rightarrow>
          let start = get_existing_download_size s True in
          if final s \<noteq> None \<and> get_existing_download_size s False = total_size
          then (AlreadyDownloaded, s\<lparr>bar_n := total_size\<rparr>, [Head, BarSet total_size])
          else
            (case download_loop cfg total_size
                    \<lparr>start_bytes = start,
                     headers = (if start > 0 then Some start else None),
                     retries = 0\<rparr>
                    s (attempts env) of
               (out, l, s', as) \<Rightarrow> (out, s', Head # as)))"

subsection \<open>The orchestrator\<close>

text \<open>
  \<^verbatim>\<open>download_files\<close>, lines 126 to 159. The disk now holds the two directories, files
  by name, and \<^verbatim>\<open>progress_bars\<close> maps a name to the counter of its bar. A target of the
  batch is a URL with the answers of the network to it: to the HEAD of line 127, and
  to the requests of its \<^verbatim>\<open>download_file\<close>.

  The workers are threads of a pool. Two transfers with different file names share
  nothing but the dictionary of bars, where each touches the entry of its own name
  under the lock, so what one of them does depends on no interleaving with the other;
  the model runs them one after the other, in the order of submission. A worker that
  never returns keeps its thread: when \<^verbatim>\<open>max_workers\<close> of them do, the targets still
  queued are not started.
\<close>

text \<open>\<^verbatim>\<open>os.path.basename(url)\<close>: what follows the last slash.\<close>

definition basename :: "string \<Rightarrow> string" where
  "basename u = rev (takeWhile (\<lambda>c. c \<noteq> CHR ''/'') (rev u))"

record disk =
  temp_dir :: "string \<rightharpoonup> bytes"
  download_dir :: "string \<rightharpoonup> bytes"

type_synonym bars = "string \<rightharpoonup> nat"

record target =
  url :: string
  size_probe :: head_result
  transfer :: target_env

text \<open>
  What the loop of lines 151 to 156 sees of one future: \<^verbatim>\<open>future.result()\<close> returns, or
  it raises and line 155 logs the error; the future of a worker that has not returned
  is not among the completed ones.
\<close>

datatype report = Returned outcome | WorkerError exn | StillRunning | NotStarted

text \<open>Line 127: one \<^verbatim>\<open>_get_file_size\<close> per URL, outside any \<^verbatim>\<open>try\<close>.\<close>

fun get_file_sizes :: "head_result list \<Rightarrow> exn + nat list" where
  "get_file_sizes [] = Inr []"
| "get_file_sizes (h # hs) =
     (case get_file_size h of
        Inl e \<Rightarrow> Inl e
      | Inr n \<Rightarrow> (case get_file_sizes hs of Inl e \<Rightarrow> Inl e | Inr ns \<Rightarrow> Inr (n # ns)))"

text \<open>Lines 129 to 143: a bar per name, starting at the size of the temporary file.\<close>

fun initial_bars :: "disk \<Rightarrow> string list \<Rightarrow> bars" where
  "initial_bars d [] = Map.empty"
| "initial_bars d (u # us) = (initial_bars d us)(basename u \<mapsto> file_size (temp_dir d (basename u)))"

text \<open>
  The files and the bar of one name. \<^verbatim>\<open>download_files\<close> makes a bar for every name it
  submits, so a lookup of a bar never fails there.
\<close>

definition view :: "disk \<Rightarrow> bars \<Rightarrow> string \<Rightarrow> store" where
  "view d b name =
     \<lparr>temp = temp_dir d name, final = download_dir d name,
      bar_n = (case b name of None \<Rightarrow> 0 | Some n \<Rightarrow> n)\<rparr>"

text \<open>One submitted call \<^verbatim>\<open>self.download_file(url, progress_bars)\<close>, line 147.\<close>

definition run_worker :: "config \<Rightarrow> target \<Rightarrow> disk \<Rightarrow> bars \<Rightarrow> outcome \<times> disk \<times> bars" where
  "run_worker cfg t d b =
     (case download_file cfg (transfer t) (view d b (basename (url t))) of
        (out, s, as) \<Rightarrow>
          (out,
           d\<lparr>temp_dir := (temp_dir d)(basename (url t) := temp s),
              download_dir := (download_dir d)(basename (url t) := final s)\<rparr>,
           b(basename (url t) \<mapsto> bar_n s)))"

text \<open>Lines 152 to 156.\<close>

definition collect :: "outcome \<Rightarrow> report" where
  "collect out =
     (case out of Raised e \<Rightarrow> WorkerError e | Pending \<Rightarrow> StillRunning | _ \<Rightarrow> Returned out)"

definition after_worker :: "string \<times> report \<Rightarrow> (string \<times> report) list \<times> disk \<times> bars \<Rightarrow> (string \<times> report) list \<times> disk \<times> bars" where
  "after_worker r x = (case x of (rs, d, b) \<Rightarrow> (r # rs, d, b))"

text \<open>Lines 145 to 156, with \<open>free\<close> threads of the pool not held by a worker that never returns.\<close>

fun run_workers :: "config \<Rightarrow> nat \<Rightarrow> target list \<Rightarrow> disk \<Rightarrow> bars \<Rightarrow> (string \<times> report) list \<times> disk \<times> bars" where
  "run_workers cfg free [] d b = ([], d, b)"
| "run_workers cfg free (t # ts) d b =
     (if free = 0 then after_worker (url t, NotStarted) (run_workers cfg free ts d b)
      else
        (case run_worker cfg t d b of
           (out, d', b') \<Rightarrow>
             after_worker (url t, collect out)
               (run_workers cfg (if out = Pending then free - 1 else free) ts d' b')))"

text \<open>
  Lines 126 to 159. \<^verbatim>\<open>ThreadPoolExecutor(max_workers=0)\<close> raises \<^verbatim>\<open>ValueError\<close>.
\<close>

definition download_files :: "config \<Rightarrow> nat \<Rightarrow> target list \<Rightarrow> disk \<Rightarrow> exn + (string \<times> report) list \<times> disk \<times> bars" where
  "download_files cfg max_workers ts d =
     (case get_file_sizes (map size_probe ts) of
        Inl e \<Rightarrow> Inl e
      | Inr sizes \<Rightarrow>
          if max_workers = 0 then Inl ValueError
          else Inr (run_workers cfg max_workers ts d (initial_bars d (map url ts))))"

subsection \<open>Reading a run\<close>

text \<open>
  The exception with which the body of the \<^verbatim>\<open>try\<close> ends on a given answer; \<open>None\<close>
  when it reaches its \<^verbatim>\<open>return\<close> (lemma \<open>try_body_raised\<close>).
\<close>

fun raised :: "response \<Rightarrow> exn option" where
  "raised (GetRaises e) = Some e"
| "raised (Response status chunks ending) =
     (if raises_for_status status then Some HTTPError else ending)"

text \<open>The \<^verbatim>\<open>Range\<close> offsets of the GETs of a run, in order (\<open>None\<close>: no \<^verbatim>\<open>Range\<close> header).\<close>

fun fetches :: "action list \<Rightarrow> nat option list" where
  "fetches [] = []"
| "fetches (Get h # as) = h # fetches as"
| "fetches (_ # as) = fetches as"


text \<open>
  An answer on which the second handler runs (line 119): the body raises a
  \<^verbatim>\<open>RequestException\<close> that the first handler has not caught.
\<close>

definition request_failure :: "response \<Rightarrow> bool" where
  "request_failure r =
     (case raised r of None \<Rightarrow> False | Some e \<Rightarrow> is_RequestException e \<and> \<not> is_ConnectionError e)"

text \<open>An answer on which the first handler runs (line 112).\<close>

definition connection_failure :: "response \<Rightarrow> bool" where
  "connection_failure r = (case raised r of None \<Rightarrow> False | Some e \<Rightarrow> is_connection_loss e)"

text \<open>An answer that succeeds, or on which the first handler runs.\<close>

definition never_counted :: "response \<Rightarrow> bool" where
  "never_counted r = (case raised r of None \<Rightarrow> True | Some e \<Rightarrow> is_connection_loss e)"

text \<open>An answer with a 4xx or 5xx status.\<close>

fun http_error :: "response \<Rightarrow> bool" where
  "http_error (GetRaises e) = False"
| "http_error (Response status chunks ending) = raises_for_status status"

text \<open>The probes end the wait of lines 114 to 116: one of them finds the network.\<close>

definition recovers :: "nat \<Rightarrow> probe list \<Rightarrow> bool" where
  "recovers d ps \<longleftrightarrow> fst (wait_for_internet d ps) = Online"

text \<open>
  The actions of lines 99 to 104 on the chunks of a response: one write and one update
  of the bar for each chunk that is not empty (lemma \<open>stream_chunks_eq\<close>).
\<close>

definition stream_actions :: "bytes list \<Rightarrow> action list" where
  "stream_actions cs = concat (map (\<lambda>c. [Write c, BarUpdate (length c)]) (filter (\<lambda>c. c \<noteq> []) cs))"

text \<open>
  Lines 91 to 97 on a response that \<^verbatim>\<open>raise_for_status\<close> lets through: the pass appends
  to the temporary file when \<^verbatim>\<open>start_bytes\<close> is positive and the status is 206, and
  starts it again from nothing otherwise. \<open>kept_bytes\<close> is what the file holds when the
  first chunk is written.
\<close>

definition resumes :: "locals \<Rightarrow> nat \<Rightarrow> bool" where
  "resumes l status \<longleftrightarrow> 0 < start_bytes l \<and> status = 206"

definition kept_bytes :: "locals \<Rightarrow> store \<Rightarrow> nat \<Rightarrow> bytes" where
  "kept_bytes l s status =
     (if resumes l status then (case temp s of None \<Rightarrow> [] | Some b \<Rightarrow> b) else [])"

text \<open>
  An invariant of the loop (lemmas \<open>offset_ok_initially\<close> and \<open>offset_ok_attempt\<close>): the
  offset of the \<^verbatim>\<open>Range\<close> header, when there is one, is at most \<^verbatim>\<open>start_bytes\<close>.
\<close>

definition offset_ok :: "locals \<Rightarrow> bool" where
  "offset_ok l \<longleftrightarrow> (case headers l of None \<Rightarrow> True | Some k \<Rightarrow> k \<le> start_bytes l)"

text \<open>What the orchestrator would report of a target whose transfer were the only one.\<close>

definition alone :: "config \<Rightarrow> disk \<Rightarrow> bars \<Rightarrow> target \<Rightarrow> string \<times> report" where
  "alone cfg d b t = (url t, collect (fst (run_worker cfg t d b)))"

text \<open>The transfer of the target returns or raises.\<close>

definition ends :: "config \<Rightarrow> disk \<Rightarrow> bars \<Rightarrow> target \<Rightarrow> bool" where
  "ends cfg d b t \<longleftrightarrow> fst (run_worker cfg t d b) \<noteq> Pending"

text \<open>A batch of three: one target out of retries, one whose GET raises an exception
  that no handler of \<^verbatim>\<open>download_file\<close> takes, one in good health.\<close>

definition failing :: target where
  "failing = \<lparr>url = ''h/a'', size_probe = HeadResponse 200 (Parsed 3),
     transfer = \<lparr>head = HeadResponse 200 (Parsed 3),
                 attempts = [(Response 500 [] None, []), (Response 503 [] None, [])]\<rparr>\<rparr>"

definition faulty :: target where
  "faulty = \<lparr>url = ''h/b'', size_probe = HeadResponse 200 (Parsed 3),
     transfer = \<lparr>head = HeadResponse 200 (Parsed 3),
                 attempts = [(GetRaises OtherException, [])]\<rparr>\<rparr>"

definition healthy :: target where
  "healthy = \<lparr>url = ''h/c'', size_probe = HeadResponse 200 (Parsed 3),
     transfer = \<lparr>head = HeadResponse 200 (Parsed 3),
                 attempts = [(Response 200 [''xyz''] None, [])]\<rparr>\<rparr>"

definition empty_disk :: disk where
  "empty_disk = \<lparr>temp_dir = Map.empty, download_dir = Map.empty\<rparr>"

definition one_retry :: config where
  "one_retry = \<lparr>retry_delay = 5, max_retries = 1\<rparr>"

text \<open>The constants of lines 12 and 13.\<close>

definition default_config :: config where
  "default_config = \<lparr>retry_delay = 5, max_retries = 10\<rparr>"

section \<open>Properties\<close>

subsection \<open>The parts of one pass\<close>

lemma fetches_append: "fetches (as @ bs) = fetches as @ fetches bs"
  by (induction as rule: fetches.induct) simp_all

lemma stream_chunks_locals:
  "stream_chunks cs l s = (l', s', as) \<Longrightarrow>
     l' = l\<lparr>start_bytes := start_bytes l + length (concat cs)\<rparr>"
proof (induction cs arbitrary: l s l' s' as)
  case Nil
  then show ?case by simp
next
  case (Cons c cs)
  show ?case
  proof (cases "c = []")
    case True
    with Cons show ?thesis by simp
  next
    case False
    with Cons.prems obtain as' where
      "stream_chunks cs (l\<lparr>start_bytes := start_bytes l + length c\<rparr>)
         (s\<lparr>temp := file_write (temp s) c, bar_n := bar_n s + length c\<rparr>) = (l', s', as')"
      by (auto split: prod.splits)
    from Cons.IH [OF this] show ?thesis
      by simp
  qed
qed

lemma stream_chunks_fetches: "stream_chunks cs l s = (l', s', as) \<Longrightarrow> fetches as = []"
  by (induction cs arbitrary: l s l' s' as) (auto split: if_splits prod.splits)


lemma wait_fetches: "wait_for_internet d ps = (w, as) \<Longrightarrow> fetches as = []"
  by (induction ps arbitrary: w as) (auto split: sum.splits bool.splits prod.splits if_splits)

lemma try_body_raised: "fst (try_body t l s r) = raised r"
  by (cases r) (auto simp: try_body_def Let_def split: prod.splits option.splits)

lemma try_body_retries: "try_body t l s r = (x, l', s', as) \<Longrightarrow> retries l' = retries l"
  by (cases r)
    (auto simp: try_body_def Let_def split: prod.splits option.splits if_splits
      dest!: stream_chunks_locals)

lemma try_body_fetches: "try_body t l s r = (x, l', s', as) \<Longrightarrow> fetches as = [headers l]"
  by (cases r)
    (auto simp: try_body_def Let_def fetches_append split: prod.splits option.splits if_splits
      dest!: stream_chunks_fetches)


lemma request_exception_not_loss:
  "is_RequestException e \<Longrightarrow> \<not> is_ConnectionError e \<Longrightarrow> \<not> is_connection_loss e"
  by (cases e) (simp_all add: is_connection_loss_def)

lemma attempt_request_failure:
  assumes "try_body t l s (fst a) = (Some e, l1, s1, as)"
    and "is_RequestException e" and "\<not> is_ConnectionError e"
  shows "attempt cfg t l s a =
           (Continue, l1\<lparr>retries := retries l + 1\<rparr>, s1, as @ [Sleep (retry_delay cfg)])"
  using assms request_exception_not_loss [OF assms(2,3)] try_body_retries [OF assms(1)]
  by (simp add: attempt_def)

lemma attempt_connection_loss:
  assumes "try_body t l s (fst a) = (Some e, l1, s1, as)"
    and "is_connection_loss e"
    and "wait_for_internet (retry_delay cfg) (snd a) = (Online, ws)"
  shows "attempt cfg t l s a =
           (Continue,
            l1\<lparr>start_bytes := file_size (temp s1), headers := Some (file_size (temp s1))\<rparr>,
            s1, as @ ws)"
  using assms by (simp add: attempt_def get_existing_download_size_def)

subsection \<open>The loop under request failures\<close>

lemma loop_request_failures:
  assumes "\<forall>a \<in> set script. request_failure (fst a)"
    and "download_loop cfg t l s script = (out, l', s', as)"
  shows "if max_retries cfg + 1 - retries l \<le> length script
         then out = Failed \<and> length (fetches as) = max_retries cfg + 1 - retries l
         else out = Pending \<and> length (fetches as) = length script + 1"
  using assms
proof (induction script arbitrary: l s out l' s' as)
  case Nil
  then show ?case by (auto split: if_splits)
next
  case (Cons a script)
  show ?case
  proof (cases "retries l \<le> max_retries cfg")
    case False
    with Cons.prems show ?thesis by auto
  next
    case True
    obtain x l1 s1 as1 where tb: "try_body t l s (fst a) = (x, l1, s1, as1)"
      by (cases "try_body t l s (fst a)") auto
    from Cons.prems(1) have "request_failure (fst a)" by simp
    with tb try_body_raised [of t l s "fst a"] obtain e where
      x: "x = Some e" and e: "is_RequestException e" "\<not> is_ConnectionError e"
      by (auto simp: request_failure_def split: option.splits)
    note at = attempt_request_failure [OF tb [unfolded x] e, of cfg]
    obtain out2 l2 s2 as2 where
      rec: "download_loop cfg t (l1\<lparr>retries := retries l + 1\<rparr>) s1 script = (out2, l2, s2, as2)"
      by (cases "download_loop cfg t (l1\<lparr>retries := retries l + 1\<rparr>) s1 script") auto
    from Cons.prems(2) True at rec
    have res: "out = out2" "as = (as1 @ [Sleep (retry_delay cfg)]) @ as2"
      by (simp_all add: after_def)
    from Cons.prems(1) have "\<forall>a \<in> set script. request_failure (fst a)" by simp
    from Cons.IH [OF this rec] True res try_body_fetches [OF tb]
    show ?thesis by (auto simp: fetches_append split: if_splits)
  qed
qed

subsection \<open>The loop under connectivity loss\<close>

lemma loop_never_counted:
  assumes "\<forall>a \<in> set script. never_counted (fst a)"
    and "download_loop cfg t l s script = (out, l', s', as)"
    and "retries l \<le> max_retries cfg"
  shows "out \<noteq> Failed \<and> retries l' = retries l"
  using assms
proof (induction script arbitrary: l s out l' s' as)
  case Nil
  then show ?case by auto
next
  case (Cons a script)
  obtain x l1 s1 as1 where tb: "try_body t l s (fst a) = (x, l1, s1, as1)"
    by (cases "try_body t l s (fst a)") auto
  note r1 = try_body_retries [OF tb]
  from Cons.prems(1) have nc: "never_counted (fst a)" by simp
  show ?case
  proof (cases x)
    case None
    with tb Cons.prems(2,3) r1 show ?thesis by (simp add: attempt_def)
  next
    case (Some e)
    with tb try_body_raised [of t l s "fst a"] have "raised (fst a) = Some e" by simp
    with nc have e: "is_connection_loss e"
      by (simp add: never_counted_def)
    obtain w ws where w: "wait_for_internet (retry_delay cfg) (snd a) = (w, ws)"
      by (cases "wait_for_internet (retry_delay cfg) (snd a)") auto
    show ?thesis
    proof (cases w)
      case Online
      let ?l = "l1\<lparr>start_bytes := file_size (temp s1), headers := Some (file_size (temp s1))\<rparr>"
      note at = attempt_connection_loss [OF tb [unfolded Some] e w [unfolded Online]]
      obtain out2 l2 s2 as2 where rec: "download_loop cfg t ?l s1 script = (out2, l2, s2, as2)"
        by (cases "download_loop cfg t ?l s1 script") auto
      from Cons.prems(2,3) at rec have res: "out = out2" "l' = l2"
        by (simp_all add: after_def)
      from Cons.prems(1) have "\<forall>a \<in> set script. never_counted (fst a)" by simp
      from Cons.IH [OF this rec] Cons.prems(3) r1 res show ?thesis by simp
    next
      case Blocked
      with tb Some e w Cons.prems(2,3) r1 show ?thesis by (auto simp: attempt_def)
    next
      case (WaitRaised e')
      with tb Some e w Cons.prems(2,3) r1 show ?thesis by (auto simp: attempt_def)
    qed
  qed
qed

lemma loop_connection_failures:
  assumes "\<forall>a \<in> set script. connection_failure (fst a) \<and> recovers (retry_delay cfg) (snd a)"
    and "download_loop cfg t l s script = (out, l', s', as)"
    and "retries l \<le> max_retries cfg"
  shows "out = Pending \<and> length (fetches as) = length script + 1 \<and>
         last (fetches as) = headers l' \<and>
         (script \<noteq> [] \<longrightarrow> headers l' = Some (file_size (temp s')) \<and> start_bytes l' = file_size (temp s'))"
  using assms
proof (induction script arbitrary: l s out l' s' as)
  case Nil
  then show ?case by auto
next
  case (Cons a script)
  obtain x l1 s1 as1 where tb: "try_body t l s (fst a) = (x, l1, s1, as1)"
    by (cases "try_body t l s (fst a)") auto
  note r1 = try_body_retries [OF tb]
  from Cons.prems(1) have cf: "connection_failure (fst a)" and rc: "recovers (retry_delay cfg) (snd a)"
    by simp_all
  from cf tb try_body_raised [of t l s "fst a"] obtain e where x: "x = Some e" and e: "is_connection_loss e"
    by (auto simp: connection_failure_def split: option.splits)
  from rc obtain ws where w: "wait_for_internet (retry_delay cfg) (snd a) = (Online, ws)"
    by (cases "wait_for_internet (retry_delay cfg) (snd a)") (auto simp: recovers_def)
  let ?l = "l1\<lparr>start_bytes := file_size (temp s1), headers := Some (file_size (temp s1))\<rparr>"
  note at = attempt_connection_loss [OF tb [unfolded x] e w]
  obtain out2 l2 s2 as2 where rec: "download_loop cfg t ?l s1 script = (out2, l2, s2, as2)"
    by (cases "download_loop cfg t ?l s1 script") auto
  from Cons.prems(2,3) at rec have res: "out = out2" "l' = l2" "s' = s2" "as = (as1 @ ws) @ as2"
    by (simp_all add: after_def)
  from Cons.prems(1) have all: "\<forall>a \<in> set script. connection_failure (fst a) \<and> recovers (retry_delay cfg) (snd a)"
    by simp
  from Cons.prems(3) r1 have "retries ?l \<le> max_retries cfg" by simp
  note ih = Cons.IH [OF all rec this]
  have f: "fetches as = headers l # fetches as2"
    using res try_body_fetches [OF tb] wait_fetches [OF w] by (simp add: fetches_append)
  from ih have ne: "fetches as2 \<noteq> []" by auto
  show ?case
  proof (cases script)
    case Nil
    with rec Cons.prems(3) r1 have "l2 = ?l" "s2 = s1" by auto
    with ih res f ne show ?thesis by simp
  next
    case (Cons b bs)
    with ih res f ne show ?thesis by simp
  qed
qed

lemma wait_blocked:
  "\<forall>p \<in> set ps. check_internet p = Inr False \<Longrightarrow>
     wait_for_internet d ps = (Blocked, concat (map (\<lambda>p. [CheckInternet, Sleep d]) ps) @ [CheckInternet])"
  by (induction ps) simp_all

subsection \<open>The first request, and the pass in closed form\<close>

lemma try_body_first: "try_body t l s r = (x, l', s', as) \<Longrightarrow> \<exists>rest. as = Get (headers l) # rest"
  by (cases r) (auto simp: try_body_def Let_def split: prod.splits option.splits if_splits)

lemma attempt_first: "attempt cfg t l s a = (st, l', s', as) \<Longrightarrow> \<exists>rest. as = Get (headers l) # rest"
proof -
  assume at: "attempt cfg t l s a = (st, l', s', as)"
  obtain x l1 s1 as1 where tb: "try_body t l s (fst a) = (x, l1, s1, as1)"
    by (cases "try_body t l s (fst a)") auto
  from try_body_first [OF tb] obtain rest where "as1 = Get (headers l) # rest" by auto
  with at tb show ?thesis
    by (auto simp: attempt_def split: option.splits if_splits prod.splits wait_result.splits)
qed

lemma loop_first:
  assumes "download_loop cfg t l s script = (out, l', s', as)" and "retries l \<le> max_retries cfg"
  shows "\<exists>rest. as = Get (headers l) # rest"
proof (cases script)
  case Nil
  with assms show ?thesis by auto
next
  case (Cons a script')
  obtain st l1 s1 as1 where at: "attempt cfg t l s a = (st, l1, s1, as1)"
    by (cases "attempt cfg t l s a") auto
  from attempt_first [OF at] obtain rest where "as1 = Get (headers l) # rest" by auto
  with assms Cons at show ?thesis
    by (cases st; cases "download_loop cfg t l1 s1 script'") (auto simp: after_def)
qed

lemma loop_not_already: "fst (download_loop cfg t l s script) \<noteq> AlreadyDownloaded"
proof (induction script arbitrary: l s)
  case Nil
  then show ?case by simp
next
  case (Cons a script)
  obtain st l1 s1 as1 where at: "attempt cfg t l s a = (st, l1, s1, as1)"
    by (cases "attempt cfg t l s a") auto
  with Cons [of l1 s1] show ?case
    by (cases st; cases "download_loop cfg t l1 s1 script") (auto simp: after_def)
qed

lemma stream_chunks_eq:
  "temp s = Some b \<Longrightarrow>
   stream_chunks cs l s =
     (l\<lparr>start_bytes := start_bytes l + length (concat cs)\<rparr>,
      s\<lparr>temp := Some (b @ concat cs), bar_n := bar_n s + length (concat cs)\<rparr>,
      stream_actions cs)"
proof (induction cs arbitrary: l s b)
  case Nil
  then show ?case by (simp add: stream_actions_def)
next
  case (Cons c cs)
  show ?case
  proof (cases "c = []")
    case True
    with Cons show ?thesis by (simp add: stream_actions_def)
  next
    case False
    have "temp (s\<lparr>temp := file_write (temp s) c, bar_n := bar_n s + length c\<rparr>) = Some (b @ c)"
      using Cons.prems by (simp add: file_write_def)
    from Cons.IH [OF this, of "l\<lparr>start_bytes := start_bytes l + length c\<rparr>"] False
    show ?thesis by (simp add: stream_actions_def)
  qed
qed

lemma open_file_kept:
  "open_file (if resumes l status then Append else Truncate) (temp s) = Some (kept_bytes l s status)"
  by (simp add: open_file_def kept_bytes_def split: option.splits)

lemma try_body_streams:
  assumes "\<not> raises_for_status status"
  shows "try_body t l s (Response status chunks ending) =
     (ending,
      (if 0 < start_bytes l \<and> status \<noteq> 206
       then l\<lparr>start_bytes := length (concat chunks), headers := None\<rparr>
       else l\<lparr>start_bytes := start_bytes l + length (concat chunks)\<rparr>),
      (case ending of
         Some e \<Rightarrow> s\<lparr>temp := Some (kept_bytes l s status @ concat chunks),
                      bar_n := bar_n s + length (concat chunks)\<rparr>
       | None \<Rightarrow> s\<lparr>temp := None, final := Some (kept_bytes l s status @ concat chunks),
                    bar_n := t\<rparr>),
      Get (headers l) # Open (if resumes l status then Append else Truncate) #
        stream_actions chunks @ (case ending of None \<Rightarrow> [Replace, BarSet t] | Some e \<Rightarrow> []))"
proof -
  let ?l1 = "if 0 < start_bytes l \<and> status \<noteq> 206 then l\<lparr>start_bytes := 0, headers := None\<rparr> else l"
  let ?mode = "if resumes l status then Append else Truncate"
  let ?s1 = "s\<lparr>temp := open_file ?mode (temp s)\<rparr>"
  have m: "(if 0 < start_bytes ?l1 then Append else Truncate) = ?mode"
    by (auto simp: resumes_def)
  have "temp ?s1 = Some (kept_bytes l s status)"
    by (simp add: open_file_kept)
  note sc = stream_chunks_eq [OF this, of chunks ?l1]
  show ?thesis
    using assms
    apply (simp only: try_body_def response.case if_False Let_def m sc prod.case)
    apply (cases ending)
     apply (auto simp: resumes_def)
    done
qed



lemma offset_ok_try_body:
  assumes "offset_ok l" and "try_body t l s r = (x, l', s', as)"
  shows "offset_ok l'"
proof (cases r)
  case (GetRaises e)
  with assms show ?thesis by (simp add: try_body_def)
next
  case (Response status chunks ending)
  show ?thesis
  proof (cases "raises_for_status status")
    case True
    with assms Response show ?thesis by (simp add: try_body_def)
  next
    case False
    from try_body_streams [OF False, of t l s chunks ending] assms Response
    show ?thesis by (auto simp: offset_ok_def split: option.splits if_splits)
  qed
qed

lemma offset_ok_attempt:
  assumes "offset_ok l" and "attempt cfg t l s a = (st, l', s', as)"
  shows "offset_ok l'"
proof -
  obtain x l1 s1 as1 where tb: "try_body t l s (fst a) = (x, l1, s1, as1)"
    by (cases "try_body t l s (fst a)") auto
  from offset_ok_try_body [OF assms(1) tb] have "offset_ok l1" .
  with assms(2) tb show ?thesis
    by (auto simp: attempt_def offset_ok_def split: option.splits if_splits prod.splits wait_result.splits)
qed

lemma offset_ok_initially:
  "offset_ok \<lparr>start_bytes = n, headers = (if n > 0 then Some n else None), retries = 0\<rparr>"
  by (simp add: offset_ok_def)

subsection \<open>What a run leaves on the disk\<close>

lemma try_body_final:
  assumes "try_body t l s r = (Some e, l', s', as)"
  shows "final s' = final s"
proof (cases r)
  case (GetRaises e')
  with assms show ?thesis by (simp add: try_body_def)
next
  case (Response status chunks ending)
  show ?thesis
  proof (cases "raises_for_status status")
    case True
    with assms Response show ?thesis by (simp add: try_body_def)
  next
    case False
    from try_body_streams [OF False, of t l s chunks ending] assms Response
    show ?thesis by auto
  qed
qed

lemma attempt_final:
  assumes "attempt cfg t l s a = (st, l', s', as)" and "st \<noteq> Return"
  shows "final s' = final s"
proof -
  obtain x l1 s1 as1 where tb: "try_body t l s (fst a) = (x, l1, s1, as1)"
    by (cases "try_body t l s (fst a)") auto
  show ?thesis
  proof (cases x)
    case None
    with assms tb show ?thesis by (simp add: attempt_def)
  next
    case (Some e)
    from try_body_final [OF tb [unfolded Some]] assms tb Some show ?thesis
      by (auto simp: attempt_def split: if_splits prod.splits wait_result.splits)
  qed
qed

lemma attempt_return: "attempt cfg t l s a = (Return, l', s', as) \<Longrightarrow> raised (fst a) = None"
  using try_body_raised [of t l s "fst a"]
  by (cases "try_body t l s (fst a)")
    (auto simp: attempt_def split: option.splits if_splits prod.splits wait_result.splits)

lemma loop_completed:
  assumes "download_loop cfg t l s script = (out, l', s', as)"
  shows "(out = Completed \<longrightarrow> (\<exists>a \<in> set script. raised (fst a) = None)) \<and>
         (out \<noteq> Completed \<longrightarrow> final s' = final s)"
  using assms
proof (induction script arbitrary: l s out l' s' as)
  case Nil
  then show ?case by (auto split: if_splits)
next
  case (Cons a script)
  show ?case
  proof (cases "retries l \<le> max_retries cfg")
    case False
    with Cons.prems show ?thesis by auto
  next
    case True
    obtain st l1 s1 as1 where at: "attempt cfg t l s a = (st, l1, s1, as1)"
      by (cases "attempt cfg t l s a") auto
    show ?thesis
    proof (cases st)
      case Return
      with at Cons.prems True attempt_return [of cfg t l s a l1 s1 as1] show ?thesis by auto
    next
      case Continue
      obtain out2 l2 s2 as2 where rec: "download_loop cfg t l1 s1 script = (out2, l2, s2, as2)"
        by (cases "download_loop cfg t l1 s1 script") auto
      from Cons.prems True at Continue rec have res: "out = out2" "s' = s2"
        by (simp_all add: after_def)
      from attempt_final [OF at] Continue have "final s1 = final s" by simp
      with Cons.IH [OF rec] res show ?thesis by auto
    next
      case (Raise e)
      with at Cons.prems True attempt_final [OF at] show ?thesis by auto
    next
      case Block
      with at Cons.prems True attempt_final [OF at] show ?thesis by auto
    qed
  qed
qed

lemma attempt_http_error:
  assumes "http_error (fst a)"
  shows "attempt cfg t l s a =
           (Continue, l\<lparr>retries := retries l + 1\<rparr>, s, [Get (headers l), Sleep (retry_delay cfg)])"
proof -
  from assms obtain status chunks ending where
    r: "fst a = Response status chunks ending" and st: "raises_for_status status"
    by (cases "fst a") auto
  then have "try_body t l s (fst a) = (Some HTTPError, l, s, [Get (headers l)])"
    by (simp add: try_body_def)
  from attempt_request_failure [OF this, of cfg] show ?thesis by simp
qed

lemma loop_http_errors:
  assumes "\<forall>a \<in> set script. http_error (fst a)"
    and "max_retries cfg + 1 - retries l \<le> length script"
  shows "download_loop cfg t l s script =
           (Failed, l\<lparr>retries := max (retries l) (max_retries cfg + 1)\<rparr>, s,
            concat (replicate (max_retries cfg + 1 - retries l)
                      [Get (headers l), Sleep (retry_delay cfg)]))"
  using assms
proof (induction script arbitrary: l)
  case Nil
  then show ?case by (auto simp: max_def)
next
  case (Cons a script)
  show ?case
  proof (cases "retries l \<le> max_retries cfg")
    case False
    then show ?thesis by (auto simp: max_def)
  next
    case True
    from Cons.prems(1) have h: "http_error (fst a)" and rest: "\<forall>a \<in> set script. http_error (fst a)"
      by simp_all
    from Cons.prems(2) True
    have len: "max_retries cfg + 1 - retries (l\<lparr>retries := retries l + 1\<rparr>) \<le> length script"
      by simp
    have suc: "Suc (max_retries cfg) - retries l = Suc (max_retries cfg - retries l)"
      using True by simp
    show ?thesis
      using True attempt_http_error [OF h, of cfg t l s] Cons.IH [OF rest len]
      by (simp add: after_def suc max_def)
  qed
qed



text \<open>
  The second handler (line 119) recomputes neither \<^verbatim>\<open>start_bytes\<close> nor the header. After
  a request failure in the middle of a stream the next GET carries the old offset, and
  a 206 answer to it is appended after the bytes already written.
\<close>

lemma stale_range_after_request_failure:
  "download_file default_config
     \<lparr>head = HeadResponse 200 (Parsed 10),
      attempts = [(Response 206 [''ef''] (Some ChunkedEncodingError), []),
                  (Response 206 [''efghij''] None, [])]\<rparr>
     \<lparr>temp = Some ''abcd'', final = None, bar_n = 4\<rparr>
   = (Completed, \<lparr>temp = None, final = Some ''abcdefefghij'', bar_n = 10\<rparr>,
      [Head, Get (Some 4), Open Append, Write ''ef'', BarUpdate 2, Sleep 5,
       Get (Some 4), Open Append, Write ''efghij'', BarUpdate 6, Replace, BarSet 10])"
  by (simp add: download_file_def get_file_size_def raises_for_status_def
      get_existing_download_size_def file_size_def attempt_def try_body_def open_file_def
      file_write_def default_config_def is_connection_loss_def after_def)

subsection \<open>The batch\<close>

lemma view_other:
  "name \<noteq> basename (url t) \<Longrightarrow> run_worker cfg t d b = (out, d', b') \<Longrightarrow> view d' b' name = view d b name"
  by (auto simp: run_worker_def view_def split: prod.splits)

lemma run_worker_view:
  "view d' b' (basename (url t)) = view d b (basename (url t)) \<Longrightarrow>
     fst (run_worker cfg t d' b') = fst (run_worker cfg t d b)"
  by (simp add: run_worker_def split: prod.splits)

lemma run_workers_alone:
  assumes "distinct (map (\<lambda>t. basename (url t)) ts)"
    and "\<forall>t \<in> set ts. view d b (basename (url t)) = view d0 b0 (basename (url t))"
    and "\<forall>t \<in> set ts. ends cfg d0 b0 t"
    and "0 < free"
  shows "fst (run_workers cfg free ts d b) = map (alone cfg d0 b0) ts"
  using assms
proof (induction ts arbitrary: d b)
  case Nil
  then show ?case by simp
next
  case (Cons t ts)
  obtain out d' b' where w: "run_worker cfg t d b = (out, d', b')"
    by (cases "run_worker cfg t d b") auto
  have rest: "\<forall>u \<in> set ts. view d' b' (basename (url u)) = view d0 b0 (basename (url u))"
  proof
    fix u assume u: "u \<in> set ts"
    with Cons.prems(1) have "basename (url u) \<noteq> basename (url t)"
      by (metis (no_types, lifting) distinct.simps(2) image_eqI list.simps(9) set_map)
    from view_other [OF this w] Cons.prems(2) u
    show "view d' b' (basename (url u)) = view d0 b0 (basename (url u))" by simp
  qed
  from Cons.prems(1) have d: "distinct (map (\<lambda>t. basename (url t)) ts)" by simp
  from Cons.prems(3) have e: "\<forall>t \<in> set ts. ends cfg d0 b0 t" by simp
  note ih = Cons.IH [OF d rest e Cons.prems(4)]
  from Cons.prems(2) have "view d b (basename (url t)) = view d0 b0 (basename (url t))" by simp
  from run_worker_view [OF this, of cfg] w have out: "out = fst (run_worker cfg t d0 b0)" by simp
  with Cons.prems(3) have "out \<noteq> Pending" by (simp add: ends_def)
  with w ih out Cons.prems(4) show ?case
    by (cases "run_workers cfg free ts d' b'") (auto simp: alone_def after_worker_def)
qed

lemma names: "basename ''h/a'' = ''a''" "basename ''h/b'' = ''b''" "basename ''h/c'' = ''c''"
  by (simp_all add: basename_def)

lemma ex_failing: "fst (run_worker one_retry failing empty_disk b) = Failed"
  by (simp add: run_worker_def failing_def empty_disk_def one_retry_def view_def names
      download_file_def get_file_size_def raises_for_status_def get_existing_download_size_def
      file_size_def attempt_def try_body_def is_connection_loss_def after_def
      split: option.splits)

lemma ex_faulty: "fst (run_worker one_retry faulty empty_disk b) = Raised OtherException"
  by (simp add: run_worker_def faulty_def empty_disk_def one_retry_def view_def names
      download_file_def get_file_size_def raises_for_status_def get_existing_download_size_def
      file_size_def attempt_def try_body_def is_connection_loss_def after_def
      split: option.splits)

lemma ex_healthy: "fst (run_worker one_retry healthy empty_disk b) = Completed"
  by (simp add: run_worker_def healthy_def empty_disk_def one_retry_def view_def names
      download_file_def get_file_size_def raises_for_status_def get_existing_download_size_def
      file_size_def attempt_def try_body_def is_connection_loss_def after_def open_file_def
      file_write_def
      split: option.splits)

lemma run_worker_own:
  "run_worker cfg t d b = (out, d', b') \<Longrightarrow>
     view d' b' (basename (url t)) =
       fst (snd (download_file cfg (transfer t) (view d b (basename (url t)))))"
  by (auto simp: run_worker_def view_def split: prod.splits)

lemma run_workers_views:
  assumes "distinct (map (\<lambda>t. basename (url t)) ts)"
    and "\<forall>t \<in> set ts. view d b (basename (url t)) = view d0 b0 (basename (url t))"
    and "\<forall>t \<in> set ts. ends cfg d0 b0 t"
    and "0 < free"
    and "run_workers cfg free ts d b = (rs, d', b')"
  shows "(\<forall>t \<in> set ts. view d' b' (basename (url t)) =
            fst (snd (download_file cfg (transfer t) (view d0 b0 (basename (url t)))))) \<and>
         (\<forall>n. n \<notin> set (map (\<lambda>t. basename (url t)) ts) \<longrightarrow> view d' b' n = view d b n)"
  using assms
proof (induction ts arbitrary: d b rs d' b')
  case Nil
  then show ?case by simp
next
  case (Cons t ts)
  obtain out d1 b1 where w: "run_worker cfg t d b = (out, d1, b1)"
    by (cases "run_worker cfg t d b") auto
  obtain rs1 d2 b2 where r: "run_workers cfg free ts d1 b1 = (rs1, d2, b2)"
    by (cases "run_workers cfg free ts d1 b1") auto
  have nt: "basename (url t) \<notin> set (map (\<lambda>t. basename (url t)) ts)"
    using Cons.prems(1) by simp
  have rest: "\<forall>u \<in> set ts. view d1 b1 (basename (url u)) = view d0 b0 (basename (url u))"
  proof
    fix u assume u: "u \<in> set ts"
    with Cons.prems(1) have "basename (url u) \<noteq> basename (url t)"
      by (metis (no_types, lifting) distinct.simps(2) image_eqI list.simps(9) set_map)
    from view_other [OF this w] Cons.prems(2) u
    show "view d1 b1 (basename (url u)) = view d0 b0 (basename (url u))" by simp
  qed
  from Cons.prems(2) have v: "view d b (basename (url t)) = view d0 b0 (basename (url t))" by simp
  from run_worker_view [OF v, of cfg] w have out: "out = fst (run_worker cfg t d0 b0)" by simp
  with Cons.prems(3) have np: "out \<noteq> Pending" by (simp add: ends_def)
  from Cons.prems(4,5) w r np have fin: "d' = d2" "b' = b2"
    by (simp_all add: after_worker_def)
  from Cons.prems(1) have d: "distinct (map (\<lambda>t. basename (url t)) ts)" by simp
  from Cons.prems(3) have e: "\<forall>t \<in> set ts. ends cfg d0 b0 t" by simp
  note ih = Cons.IH [OF d rest e Cons.prems(4) r]
  from ih nt have "view d2 b2 (basename (url t)) = view d1 b1 (basename (url t))" by blast
  with run_worker_own [OF w] v
  have own: "view d2 b2 (basename (url t)) =
      fst (snd (download_file cfg (transfer t) (view d0 b0 (basename (url t)))))" by simp
  have other: "\<forall>n. n \<notin> set (map (\<lambda>t. basename (url t)) (t # ts)) \<longrightarrow> view d2 b2 n = view d b n"
  proof (intro allI impI)
    fix n assume n: "n \<notin> set (map (\<lambda>t. basename (url t)) (t # ts))"
    then have "n \<noteq> basename (url t)" and "n \<notin> set (map (\<lambda>t. basename (url t)) ts)" by auto
    with ih view_other [OF _ w, of n] show "view d2 b2 n = view d b n" by simp
  qed
  from ih own other fin show ?case by simp
qed

subsection \<open>What the handlers and the pool do guarantee\<close>

text \<open>
  The resume offset. When the size probe returns and no file of that size is at the
  final location, the first GET carries \<^verbatim>\<open>Range: bytes=k-\<close> if the temporary file has
  \<open>k > 0\<close> bytes and no \<^verbatim>\<open>Range\<close> header if it has none. After a connectivity recovery
  \<^verbatim>\<open>start_bytes\<close> is the size of the temporary file at that moment and the offset of the
  header. When the first GET, sent with offset \<open>k > 0\<close>, is answered by a 206 whose body
  streams to its end and has exactly \<open>total_size - k\<close> bytes, the transfer ends
  \<open>Completed\<close> and the final file has size \<^verbatim>\<open>total_size\<close>.
\<close>

theorem resume_offset_and_final_size:
  assumes "get_file_size (head env) = Inr total_size"
    and "\<not> (final s \<noteq> None \<and> file_size (final s) = total_size)"
  shows "(\<exists>rest. snd (snd (download_file cfg env s)) =
            Head # Get (if 0 < file_size (temp s) then Some (file_size (temp s)) else None) # rest) \<and>
         (fst (try_body total_size l st (fst a)) = Some e \<and> is_connection_loss e \<and>
          recovers (retry_delay cfg) (snd a) \<longrightarrow>
            (\<exists>l' st' as. attempt cfg total_size l st a = (Continue, l', st', as) \<and>
               start_bytes l' = file_size (temp st') \<and>
               headers l' = Some (file_size (temp st')))) \<and>
         (temp s = Some b \<and> b \<noteq> [] \<and> attempts env = (Response 206 chunks None, ps) # later \<and>
          length b + length (concat chunks) = total_size \<longrightarrow>
            fst (download_file cfg env s) = Completed \<and>
            fst (snd (download_file cfg env s)) =
              \<lparr>temp = None, final = Some (b @ concat chunks), bar_n = total_size\<rparr> \<and>
            file_size (final (fst (snd (download_file cfg env s)))) = total_size)"
proof -
  let ?l = "\<lparr>start_bytes = file_size (temp s),
             headers = (if file_size (temp s) > 0 then Some (file_size (temp s)) else None),
             retries = 0\<rparr>"
  obtain out l' s' as where
    loop: "download_loop cfg total_size ?l s (attempts env) = (out, l', s', as)"
    by (cases "download_loop cfg total_size ?l s (attempts env)") auto
  from assms loop have df: "download_file cfg env s = (out, s', Head # as)"
    by (auto simp: download_file_def Let_def get_existing_download_size_def)
  from loop_first [OF loop] df
  have 1: "\<exists>rest. snd (snd (download_file cfg env s)) =
            Head # Get (if 0 < file_size (temp s) then Some (file_size (temp s)) else None) # rest"
    by simp
  have 2: "fst (try_body total_size l st (fst a)) = Some e \<and> is_connection_loss e \<and>
          recovers (retry_delay cfg) (snd a) \<longrightarrow>
            (\<exists>l' st' as. attempt cfg total_size l st a = (Continue, l', st', as) \<and>
               start_bytes l' = file_size (temp st') \<and>
               headers l' = Some (file_size (temp st')))"
  proof
    assume h: "fst (try_body total_size l st (fst a)) = Some e \<and> is_connection_loss e \<and>
          recovers (retry_delay cfg) (snd a)"
    then obtain l1 s1 as1 where tb: "try_body total_size l st (fst a) = (Some e, l1, s1, as1)"
      by (cases "try_body total_size l st (fst a)") auto
    from h obtain ws where w: "wait_for_internet (retry_delay cfg) (snd a) = (Online, ws)"
      by (cases "wait_for_internet (retry_delay cfg) (snd a)") (auto simp: recovers_def)
    from h have "is_connection_loss e" by simp
    from attempt_connection_loss [OF tb this w]
    show "\<exists>l' st' as. attempt cfg total_size l st a = (Continue, l', st', as) \<and>
               start_bytes l' = file_size (temp st') \<and>
               headers l' = Some (file_size (temp st'))"
      by simp
  qed
  have 3: "temp s = Some b \<and> b \<noteq> [] \<and> attempts env = (Response 206 chunks None, ps) # later \<and>
          length b + length (concat chunks) = total_size \<longrightarrow>
            fst (download_file cfg env s) = Completed \<and>
            fst (snd (download_file cfg env s)) =
              \<lparr>temp = None, final = Some (b @ concat chunks), bar_n = total_size\<rparr> \<and>
            file_size (final (fst (snd (download_file cfg env s)))) = total_size"
  proof
    assume h: "temp s = Some b \<and> b \<noteq> [] \<and> attempts env = (Response 206 chunks None, ps) # later \<and>
          length b + length (concat chunks) = total_size"
    have nr: "\<not> raises_for_status 206" by (simp add: raises_for_status_def)
    from h have k: "kept_bytes ?l s 206 = b"
      by (simp add: kept_bytes_def resumes_def file_size_def)
    from try_body_streams [OF nr, of total_size ?l s chunks None] k
    have "attempt cfg total_size ?l s (Response 206 chunks None, ps) =
            (Return, ?l\<lparr>start_bytes := start_bytes ?l + length (concat chunks)\<rparr>,
             s\<lparr>temp := None, final := Some (b @ concat chunks), bar_n := total_size\<rparr>,
             Get (headers ?l) # Open (if resumes ?l 206 then Append else Truncate) #
               stream_actions chunks @ [Replace, BarSet total_size])"
      by (simp add: attempt_def)
    with loop h have "out = Completed"
      and "s' = s\<lparr>temp := None, final := Some (b @ concat chunks), bar_n := total_size\<rparr>"
      by simp_all
    with df h show "fst (download_file cfg env s) = Completed \<and>
            fst (snd (download_file cfg env s)) =
              \<lparr>temp = None, final = Some (b @ concat chunks), bar_n = total_size\<rparr> \<and>
            file_size (final (fst (snd (download_file cfg env s)))) = total_size"
      by (simp add: file_size_def)
  qed
  from 1 2 3 show ?thesis by blast
qed

theorem resume_offset_and_final_size_witness:
  "snd (snd (download_file default_config
      \<lparr>head = HeadResponse 200 (Parsed 10), attempts = [(Response 206 [''efg'', ''hij''] None, [])]\<rparr>
      \<lparr>temp = Some ''abcd'', final = None, bar_n = 4\<rparr>))
    = [Head, Get (Some 4), Open Append, Write ''efg'', BarUpdate 3, Write ''hij'', BarUpdate 3,
       Replace, BarSet 10] \<and>
   (\<exists>l' st' as. attempt default_config 10 \<lparr>start_bytes = 4, headers = Some 4, retries = 0\<rparr>
       \<lparr>temp = Some ''abcd'', final = None, bar_n = 4\<rparr>
       (Response 206 [''efg''] (Some ConnectionError), [ProbeResponds]) = (Continue, l', st', as) \<and>
       start_bytes l' = 7 \<and> headers l' = Some 7 \<and> temp st' = Some ''abcdefg'') \<and>
   fst (download_file default_config
      \<lparr>head = HeadResponse 200 (Parsed 10), attempts = [(Response 206 [''efg'', ''hij''] None, [])]\<rparr>
      \<lparr>temp = Some ''abcd'', final = None, bar_n = 4\<rparr>) = Completed \<and>
   fst (snd (download_file default_config
      \<lparr>head = HeadResponse 200 (Parsed 10), attempts = [(Response 206 [''efg'', ''hij''] None, [])]\<rparr>
      \<lparr>temp = Some ''abcd'', final = None, bar_n = 4\<rparr>))
    = \<lparr>temp = None, final = Some ''abcdefghij'', bar_n = 10\<rparr>"
  using resume_offset_and_final_size [of
      "\<lparr>head = HeadResponse 200 (Parsed 10), attempts = [(Response 206 [''efg'', ''hij''] None, [])]\<rparr>"
      10 "\<lparr>temp = Some ''abcd'', final = None, bar_n = 4\<rparr>" default_config
      "\<lparr>start_bytes = 4, headers = Some 4, retries = 0\<rparr>"
      "\<lparr>temp = Some ''abcd'', final = None, bar_n = 4\<rparr>"
      "(Response 206 [''efg''] (Some ConnectionError), [ProbeResponds])" ConnectionError
      "''abcd''" "[''efg'', ''hij'']" "[]" "[]"]
  by (simp add: get_file_size_def raises_for_status_def file_size_def default_config_def
      download_file_def get_existing_download_size_def attempt_def try_body_def open_file_def
      file_write_def is_connection_loss_def recovers_def check_internet_def)

text \<open>
  The first handler. While every answer either succeeds or fails with an exception
  that line 112 names, \<^verbatim>\<open>retries\<close> keeps its value and the transfer does not end
  \<open>Failed\<close>. When every answer fails so and the network is found again each time, the
  loop has sent one GET more than it has had answers, however many these are.
\<close>

theorem connectivity_loss_never_exhausts:
  assumes "\<forall>a \<in> set script. never_counted (fst a)"
    and "retries l \<le> max_retries cfg"
  shows "fst (download_file cfg \<lparr>head = h, attempts = script\<rparr> s) \<noteq> Failed \<and>
         fst (download_loop cfg t l s script) \<noteq> Failed \<and>
         retries (fst (snd (download_loop cfg t l s script))) = retries l \<and>
         ((\<forall>a \<in> set script. connection_failure (fst a) \<and> recovers (retry_delay cfg) (snd a)) \<longrightarrow>
          script \<noteq> [] \<longrightarrow>
            fst (download_loop cfg t l s script) = Pending \<and>
            length (fetches (snd (snd (snd (download_loop cfg t l s script))))) = length script + 1 \<and>
            last (fetches (snd (snd (snd (download_loop cfg t l s script))))) =
              Some (file_size (temp (fst (snd (snd (download_loop cfg t l s script))))))) \<and>
         ((\<forall>p \<in> set ps. check_internet p = Inr False) \<longrightarrow>
            fst (wait_for_internet (retry_delay cfg) ps) = Blocked)"
proof -
  obtain out l' s' as where loop: "download_loop cfg t l s script = (out, l', s', as)"
    by (cases "download_loop cfg t l s script") auto
  note a = loop_never_counted [OF assms(1) loop assms(2)]
  have b: "fst (download_file cfg \<lparr>head = h, attempts = script\<rparr> s) \<noteq> Failed"
  proof (cases "get_file_size h")
    case (Inl e)
    then show ?thesis by (simp add: download_file_def)
  next
    case (Inr total)
    let ?l = "\<lparr>start_bytes = get_existing_download_size s True,
               headers = (if get_existing_download_size s True > 0
                          then Some (get_existing_download_size s True) else None),
               retries = 0\<rparr>"
    obtain out2 l2 s2 as2 where l2: "download_loop cfg total ?l s script = (out2, l2, s2, as2)"
      by (cases "download_loop cfg total ?l s script") auto
    from loop_never_counted [OF assms(1) l2] have "out2 \<noteq> Failed" by simp
    with Inr l2 show ?thesis by (simp add: download_file_def Let_def)
  qed
  have c: "(\<forall>a \<in> set script. connection_failure (fst a) \<and> recovers (retry_delay cfg) (snd a)) \<longrightarrow>
          script \<noteq> [] \<longrightarrow>
            out = Pending \<and> length (fetches as) = length script + 1 \<and>
            last (fetches as) = Some (file_size (temp s'))"
    using loop_connection_failures [OF _ loop assms(2)] by auto
  have d: "(\<forall>p \<in> set ps. check_internet p = Inr False) \<longrightarrow>
            fst (wait_for_internet (retry_delay cfg) ps) = Blocked"
    using wait_blocked [of ps "retry_delay cfg"] by auto
  from a b c d loop show ?thesis by simp
qed

theorem connectivity_loss_never_exhausts_witness:
  "fst (download_file default_config
      \<lparr>head = HeadResponse 200 (Parsed 6),
       attempts = [(GetRaises ConnectionError, [ProbeRaises ConnectionError, ProbeResponds]),
                   (Response 200 [''ab''] (Some IncompleteRead), [ProbeResponds]),
                   (Response 206 [''cd''] (Some ProtocolError), [ProbeResponds])]\<rparr>
      \<lparr>temp = None, final = None, bar_n = 0\<rparr>) \<noteq> Failed \<and>
   fst (download_loop default_config 6 \<lparr>start_bytes = 0, headers = None, retries = 10\<rparr>
      \<lparr>temp = None, final = None, bar_n = 0\<rparr>
      [(GetRaises ConnectionError, [ProbeRaises ConnectionError, ProbeResponds]),
       (Response 200 [''ab''] (Some IncompleteRead), [ProbeResponds]),
       (Response 206 [''cd''] (Some ProtocolError), [ProbeResponds])]) = Pending \<and>
   retries (fst (snd (download_loop default_config 6 \<lparr>start_bytes = 0, headers = None, retries = 10\<rparr>
      \<lparr>temp = None, final = None, bar_n = 0\<rparr>
      [(GetRaises ConnectionError, [ProbeRaises ConnectionError, ProbeResponds]),
       (Response 200 [''ab''] (Some IncompleteRead), [ProbeResponds]),
       (Response 206 [''cd''] (Some ProtocolError), [ProbeResponds])]))) = 10 \<and>
   fetches (snd (snd (snd (download_loop default_config 6 \<lparr>start_bytes = 0, headers = None, retries = 10\<rparr>
      \<lparr>temp = None, final = None, bar_n = 0\<rparr>
      [(GetRaises ConnectionError, [ProbeRaises ConnectionError, ProbeResponds]),
       (Response 200 [''ab''] (Some IncompleteRead), [ProbeResponds]),
       (Response 206 [''cd''] (Some ProtocolError), [ProbeResponds])])))) = [None, Some 0, Some 2, Some 4] \<and>
   fst (wait_for_internet 5 [ProbeRaises ConnectionError, ProbeRaises ConnectTimeout]) = Blocked"
  using connectivity_loss_never_exhausts [of
      "[(GetRaises ConnectionError, [ProbeRaises ConnectionError, ProbeResponds]),
        (Response 200 [''ab''] (Some IncompleteRead), [ProbeResponds]),
        (Response 206 [''cd''] (Some ProtocolError), [ProbeResponds])]"
      "\<lparr>start_bytes = 0, headers = None, retries = 10\<rparr>" default_config
      "HeadResponse 200 (Parsed 6)" "\<lparr>temp = None, final = None, bar_n = 0\<rparr>" 6
      "[ProbeRaises ConnectionError, ProbeRaises ConnectTimeout]"]
  by (simp add: never_counted_def connection_failure_def recovers_def raises_for_status_def
      is_connection_loss_def check_internet_def default_config_def attempt_def try_body_def
      get_existing_download_size_def file_size_def after_def open_file_def file_write_def)

text \<open>
  The pool. When no size probe of line 127 raises past its handler, the file names of
  the targets differ, the pool has a thread and every transfer returns or raises,
  \<^verbatim>\<open>download_files\<close> returns with one report per target, each the report the target
  would get if its transfer were the only one; the files and the bar of each target
  are left as its transfer alone leaves them, and every other name is untouched.
\<close>

theorem workers_are_isolated:
  assumes "get_file_sizes (map size_probe ts) = Inr sizes"
    and "distinct (map (\<lambda>t. basename (url t)) ts)"
    and "\<forall>t \<in> set ts. ends cfg d (initial_bars d (map url ts)) t"
    and "0 < max_workers"
  shows "\<exists>d' b'. download_files cfg max_workers ts d =
           Inr (map (alone cfg d (initial_bars d (map url ts))) ts, d', b') \<and>
         (\<forall>t \<in> set ts. view d' b' (basename (url t)) =
            fst (snd (download_file cfg (transfer t)
                        (view d (initial_bars d (map url ts)) (basename (url t)))))) \<and>
         (\<forall>n. n \<notin> set (map (\<lambda>t. basename (url t)) ts) \<longrightarrow>
            view d' b' n = view d (initial_bars d (map url ts)) n)"
proof -
  let ?b = "initial_bars d (map url ts)"
  obtain rs d' b' where r: "run_workers cfg max_workers ts d ?b = (rs, d', b')"
    by (cases "run_workers cfg max_workers ts d ?b") auto
  from run_workers_alone [OF assms(2) _ assms(3,4), of d ?b] r
  have rs: "rs = map (alone cfg d ?b) ts" by simp
  note v = run_workers_views [OF assms(2) _ assms(3,4) r]
  from assms(1,4) r rs have "download_files cfg max_workers ts d =
      Inr (map (alone cfg d ?b) ts, d', b')" by (simp add: download_files_def)
  with v show ?thesis by blast
qed

theorem workers_are_isolated_witness:
  "\<exists>d' b'. download_files one_retry 5 [failing, faulty, healthy] empty_disk =
     Inr ([(''h/a'', Returned Failed), (''h/b'', WorkerError OtherException),
           (''h/c'', Returned Completed)], d', b') \<and>
     download_dir d' ''c'' = Some ''xyz'' \<and> temp_dir d' ''c'' = None"
proof -
  have 1: "get_file_sizes (map size_probe [failing, faulty, healthy]) = Inr [3, 3, 3]"
    by (simp add: failing_def faulty_def healthy_def get_file_size_def raises_for_status_def)
  have 2: "distinct (map (\<lambda>t. basename (url t)) [failing, faulty, healthy])"
    by (simp add: failing_def faulty_def healthy_def names)
  have 3: "\<forall>t \<in> set [failing, faulty, healthy].
             ends one_retry empty_disk (initial_bars empty_disk (map url [failing, faulty, healthy])) t"
    by (simp add: ends_def ex_failing ex_faulty ex_healthy)
  have 4: "0 < (5::nat)" by simp
  from workers_are_isolated [OF 1 2 3 4] obtain d' b' where
    r: "download_files one_retry 5 [failing, faulty, healthy] empty_disk =
          Inr (map (alone one_retry empty_disk
                 (initial_bars empty_disk (map url [failing, faulty, healthy])))
               [failing, faulty, healthy], d', b')"
    and v: "view d' b' (basename (url healthy)) =
          fst (snd (download_file one_retry (transfer healthy)
                 (view empty_disk (initial_bars empty_disk (map url [failing, faulty, healthy]))
                    (basename (url healthy)))))"
    by auto
  from r have a: "download_files one_retry 5 [failing, faulty, healthy] empty_disk =
     Inr ([(''h/a'', Returned Failed), (''h/b'', WorkerError OtherException),
           (''h/c'', Returned Completed)], d', b')"
    by (simp add: alone_def ex_failing ex_faulty ex_healthy collect_def)
       (simp add: failing_def faulty_def healthy_def)
  from v have "view d' b' ''c'' = \<lparr>temp = None, final = Some ''xyz'', bar_n = 3\<rparr>"
    by (simp add: healthy_def names view_def empty_disk_def download_file_def get_file_size_def
        raises_for_status_def get_existing_download_size_def file_size_def attempt_def
        try_body_def open_file_def file_write_def one_retry_def)
  then have "download_dir d' ''c'' = Some ''xyz'' \<and> temp_dir d' ''c'' = None"
    by (simp add: view_def)
  with a show ?thesis by blast
qed

subsection \<open>The claims\<close>

text \<open>
  C1 fails on the code. The claim: the fetch of a transfer whose temporary file has
  \<open>k\<close> bytes, \<open>0 < k < total_size\<close>, carries \<^verbatim>\<open>Range: bytes=k-\<close>; whenever the offset is
  computed, at the start or after a connectivity recovery, a \<^verbatim>\<open>Range\<close> header is sent
  exactly when the temporary file is not empty; a fetch that succeeds leaves a final
  file of \<^verbatim>\<open>total_size\<close> bytes. Line 118 sets the header after a recovery without the
  test \<^verbatim>\<open>start_bytes > 0\<close> of line 84: with no temporary file, the GET after the
  recovery carries \<^verbatim>\<open>Range: bytes=0-\<close>. For a resource of no bytes the server answers
  that header with 416, which line 119 counts, and the transfer ends \<open>Failed\<close>.
\<close>

theorem range_header_sent_for_empty_temp_file:
  "download_file default_config
     \<lparr>head = HeadResponse 200 (Parsed 10), attempts = [(GetRaises ConnectionError, [ProbeResponds])]\<rparr>
     \<lparr>temp = None, final = None, bar_n = 0\<rparr>
   = (Pending, \<lparr>temp = None, final = None, bar_n = 0\<rparr>,
      [Head, Get None, CheckInternet, Get (Some 0)]) \<and>
   download_file one_retry
     \<lparr>head = HeadResponse 200 (Parsed 0),
      attempts = [(GetRaises ConnectionError, [ProbeResponds]),
                  (Response 416 [] None, []), (Response 416 [] None, [])]\<rparr>
     \<lparr>temp = None, final = None, bar_n = 0\<rparr>
   = (Failed, \<lparr>temp = None, final = None, bar_n = 0\<rparr>,
      [Head, Get None, CheckInternet, Get (Some 0), Sleep 5, Get (Some 0), Sleep 5])"
  by (simp add: download_file_def get_file_size_def raises_for_status_def
      get_existing_download_size_def file_size_def attempt_def try_body_def
      is_connection_loss_def check_internet_def default_config_def one_retry_def after_def)

text \<open>
  C2 fails on the code. The claim: a transfer whose fetches fail only by loss of the
  connection (a reset, a protocol error, a truncated read) never adds to \<^verbatim>\<open>retries\<close>
  and never ends \<open>Failed\<close>; the worker waits for the network, computes the offset again
  and goes on without bound. A stream that ends short reaches \<^verbatim>\<open>download_file\<close> as
  \<^verbatim>\<open>ChunkedEncodingError\<close>, which line 112 does not name: line 119 takes it, adds to
  \<^verbatim>\<open>retries\<close> and sleeps, and after \<open>max_retries + 1\<close> such reads the transfer ends
  \<open>Failed\<close>. And a \<^verbatim>\<open>ReadTimeout\<close> of the connectivity probe is not caught by
  \<^verbatim>\<open>_check_internet\<close>: it leaves \<^verbatim>\<open>download_file\<close>, and the worker does not wait.
\<close>

theorem truncated_read_is_counted:
  "download_file one_retry
     \<lparr>head = HeadResponse 200 (Parsed 10),
      attempts = [(Response 200 [''abc''] (Some ChunkedEncodingError), []),
                  (Response 200 [''abcde''] (Some ChunkedEncodingError), [])]\<rparr>
     \<lparr>temp = None, final = None, bar_n = 0\<rparr>
   = (Failed, \<lparr>temp = Some ''abcde'', final = None, bar_n = 8\<rparr>,
      [Head, Get None, Open Truncate, Write ''abc'', BarUpdate 3, Sleep 5,
       Get None, Open Truncate, Write ''abcde'', BarUpdate 5, Sleep 5]) \<and>
   download_file one_retry
     \<lparr>head = HeadResponse 200 (Parsed 10),
      attempts = [(GetRaises ConnectionError, [ProbeRaises ReadTimeout])]\<rparr>
     \<lparr>temp = None, final = None, bar_n = 0\<rparr>
   = (Raised ReadTimeout, \<lparr>temp = None, final = None, bar_n = 0\<rparr>,
      [Head, Get None, CheckInternet])"
  by (simp add: download_file_def get_file_size_def raises_for_status_def
      get_existing_download_size_def file_size_def attempt_def try_body_def open_file_def
      file_write_def is_connection_loss_def check_internet_def one_retry_def after_def)




text \<open>
  C4. A transfer that enters the loop (the size probe returns and the final file is
  not already there with that size) and whose every GET is answered by a request
  failure ends \<open>Failed\<close> once \<open>max_retries + 1\<close> answers have come, having sent exactly
  \<open>max_retries + 1\<close> GETs; with fewer answers it has not failed: it is waiting for the
  answer to its next GET.
\<close>

theorem bounded_retries:
  assumes "get_file_size (head env) = Inr total_size"
    and "\<not> (final s \<noteq> None \<and> get_existing_download_size s False = total_size)"
    and "\<forall>a \<in> set (attempts env). request_failure (fst a)"
  shows "(max_retries cfg < length (attempts env) \<longrightarrow>
            fst (download_file cfg env s) = Failed \<and>
            length (fetches (snd (snd (download_file cfg env s)))) = max_retries cfg + 1) \<and>
         (length (attempts env) \<le> max_retries cfg \<longrightarrow>
            fst (download_file cfg env s) = Pending \<and>
            length (fetches (snd (snd (download_file cfg env s)))) = length (attempts env) + 1)"
proof -
  let ?l = "\<lparr>start_bytes = get_existing_download_size s True,
             headers = (if get_existing_download_size s True > 0
                        then Some (get_existing_download_size s True) else None),
             retries = 0\<rparr>"
  obtain out l' s' as where
    loop: "download_loop cfg total_size ?l s (attempts env) = (out, l', s', as)"
    by (cases "download_loop cfg total_size ?l s (attempts env)") auto
  from assms(1,2) loop have df: "download_file cfg env s = (out, s', Head # as)"
    by (auto simp: download_file_def Let_def)
  from loop_request_failures [OF assms(3) loop] df show ?thesis
    by (auto split: if_splits)
qed

theorem bounded_retries_witness:
  "fst (download_file default_config
          \<lparr>head = HeadResponse 200 (Parsed 1000),
           attempts = replicate 11 (Response 500 [] None, [])\<rparr>
          \<lparr>temp = None, final = None, bar_n = 0\<rparr>) = Failed \<and>
   length (fetches (snd (snd (download_file default_config
          \<lparr>head = HeadResponse 200 (Parsed 1000),
           attempts = replicate 11 (Response 500 [] None, [])\<rparr>
          \<lparr>temp = None, final = None, bar_n = 0\<rparr>)))) = 11"
  using bounded_retries [of "\<lparr>head = HeadResponse 200 (Parsed 1000),
           attempts = replicate 11 (Response 500 [] None, [])\<rparr>" 1000
           "\<lparr>temp = None, final = None, bar_n = 0\<rparr>" default_config]
  by (simp add: get_file_size_def raises_for_status_def request_failure_def default_config_def)

text \<open>
  C5, as the code has it. When the size probe returns, \<^verbatim>\<open>download_file\<close> takes the
  return of line 82 exactly when a file is at the final location and its size equals
  the probed \<^verbatim>\<open>total_size\<close>; it then sets the bar to \<^verbatim>\<open>total_size\<close> and sends no GET.
  In every other case it sends a GET. The guard of line 77 does not ask for a size
  other than 0.
\<close>

theorem short_circuit_iff_final_size_matches:
  assumes "get_file_size (head env) = Inr total_size"
  shows "(fst (download_file cfg env s) = AlreadyDownloaded \<longleftrightarrow>
            final s \<noteq> None \<and> file_size (final s) = total_size) \<and>
         (fst (download_file cfg env s) = AlreadyDownloaded \<longrightarrow>
            snd (download_file cfg env s) = (s\<lparr>bar_n := total_size\<rparr>, [Head, BarSet total_size])) \<and>
         (fst (download_file cfg env s) \<noteq> AlreadyDownloaded \<longrightarrow>
            fetches (snd (snd (download_file cfg env s))) \<noteq> [])"
proof (cases "final s \<noteq> None \<and> file_size (final s) = total_size")
  case True
  with assms show ?thesis
    by (simp add: download_file_def get_existing_download_size_def)
next
  case False
  let ?l = "\<lparr>start_bytes = get_existing_download_size s True,
             headers = (if get_existing_download_size s True > 0
                        then Some (get_existing_download_size s True) else None),
             retries = 0\<rparr>"
  obtain out l' s' as where
    loop: "download_loop cfg total_size ?l s (attempts env) = (out, l', s', as)"
    by (cases "download_loop cfg total_size ?l s (attempts env)") auto
  from assms False loop have df: "download_file cfg env s = (out, s', Head # as)"
    by (auto simp: download_file_def Let_def get_existing_download_size_def)
  from loop_not_already [of cfg total_size ?l s "attempts env"] loop
  have "out \<noteq> AlreadyDownloaded" by simp
  moreover from loop_first [OF loop] have "fetches as \<noteq> []" by auto
  ultimately show ?thesis using False df by simp
qed

theorem short_circuit_iff_final_size_matches_witness:
  "(fst (download_file default_config
          \<lparr>head = HeadResponse 200 (Parsed 4), attempts = []\<rparr>
          \<lparr>temp = None, final = Some ''abcd'', bar_n = 0\<rparr>) = AlreadyDownloaded) \<and>
   snd (download_file default_config
          \<lparr>head = HeadResponse 200 (Parsed 4), attempts = []\<rparr>
          \<lparr>temp = None, final = Some ''abcd'', bar_n = 0\<rparr>)
     = (\<lparr>temp = None, final = Some ''abcd'', bar_n = 4\<rparr>, [Head, BarSet 4])"
  using short_circuit_iff_final_size_matches [of
      "\<lparr>head = HeadResponse 200 (Parsed 4), attempts = []\<rparr>" 4
      default_config "\<lparr>temp = None, final = Some ''abcd'', bar_n = 0\<rparr>"]
  by (simp add: get_file_size_def raises_for_status_def file_size_def)

text \<open>
  C5, as the spec has it, fails: with the size unknown (the probe failed, so
  \<^verbatim>\<open>total_size\<close> is 0) and an empty file at the final location, line 82 returns and
  nothing is fetched.
\<close>

theorem short_circuit_with_unknown_size:
  "download_file default_config
     \<lparr>head = HeadRaises ReadTimeout, attempts = [(Response 200 [''data''] None, [])]\<rparr>
     \<lparr>temp = None, final = Some [], bar_n = 0\<rparr>
   = (AlreadyDownloaded, \<lparr>temp = None, final = Some [], bar_n = 0\<rparr>, [Head, BarSet 0])"
  by (simp add: download_file_def get_file_size_def get_existing_download_size_def file_size_def)






text \<open>
  C8, as the code has it. A pass whose response streams to its end moves the temporary
  file to the final location (\<^verbatim>\<open>os.replace\<close>) and then sets the bar to the probed
  \<^verbatim>\<open>total_size\<close>, whatever it is; these are the last two actions of the pass.
\<close>

theorem success_sets_count_to_total_size:
  assumes "\<not> raises_for_status status"
  shows "\<exists>l'. attempt cfg total_size l s (Response status chunks None, ps) =
           (Return, l',
            s\<lparr>temp := None, final := Some (kept_bytes l s status @ concat chunks),
               bar_n := total_size\<rparr>,
            Get (headers l) # Open (if resumes l status then Append else Truncate) #
              stream_actions chunks @ [Replace, BarSet total_size])"
  using try_body_streams [OF assms, of total_size l s chunks None]
  by (simp add: attempt_def)

theorem success_sets_count_to_total_size_witness:
  "\<exists>l'. attempt default_config 1000 \<lparr>start_bytes = 2, headers = Some 2, retries = 0\<rparr>
           \<lparr>temp = Some ''ab'', final = None, bar_n = 2\<rparr> (Response 206 [''cd'', ''e''] None, []) =
           (Return, l',
            \<lparr>temp = None, final = Some ''abcde'', bar_n = 1000\<rparr>,
            [Get (Some 2), Open Append, Write ''cd'', BarUpdate 2, Write ''e'', BarUpdate 1,
             Replace, BarSet 1000])"
  using success_sets_count_to_total_size [of 206 default_config 1000
      "\<lparr>start_bytes = 2, headers = Some 2, retries = 0\<rparr>"
      "\<lparr>temp = Some ''ab'', final = None, bar_n = 2\<rparr>" "[''cd'', ''e'']" "[]"]
  by (simp add: raises_for_status_def kept_bytes_def resumes_def stream_actions_def
      numeral_2_eq_2)

text \<open>
  C8, as the spec has it, fails: with the size unknown (\<^verbatim>\<open>total_size\<close> is 0) and ten
  bytes written, the closing assignment sets the bar to 0, not to 10.
\<close>

theorem closing_count_with_unknown_size:
  "download_file default_config
     \<lparr>head = HeadResponse 200 NoHeader, attempts = [(Response 200 [''0123456789''] None, [])]\<rparr>
     \<lparr>temp = None, final = None, bar_n = 0\<rparr>
   = (Completed, \<lparr>temp = None, final = Some ''0123456789'', bar_n = 0\<rparr>,
      [Head, Get None, Open Truncate, Write ''0123456789'', BarUpdate 10, Replace, BarSet 0])"
  by (simp add: download_file_def get_file_size_def raises_for_status_def
      get_existing_download_size_def file_size_def attempt_def try_body_def open_file_def
      file_write_def)

text \<open>
  C9 fails on the code. The claim: the orchestrator attempts every target of a batch
  exactly once, and a failure of one target, also a fault that leaves its transfer, is
  caught where the orchestrator collects the results and touches no other target.
  Line 127 probes every size before any transfer is submitted and is in no \<^verbatim>\<open>try\<close>. A
  \<^verbatim>\<open>Content-Length\<close> that \<^verbatim>\<open>int\<close> does not read raises \<^verbatim>\<open>ValueError\<close>, which the handler
  of \<^verbatim>\<open>_get_file_size\<close> does not take; \<^verbatim>\<open>download_files\<close> ends with it and no target
  is attempted, the healthy one included.
\<close>

theorem size_probe_fault_stops_the_batch:
  "download_files one_retry 5
     [\<lparr>url = ''h/a'', size_probe = HeadResponse 200 Malformed,
       transfer = \<lparr>head = HeadResponse 200 (Parsed 3),
                   attempts = [(Response 200 [''xyz''] None, [])]\<rparr>\<rparr>,
      healthy] empty_disk
   = Inl ValueError"
  by (simp add: download_files_def get_file_size_def raises_for_status_def)

text \<open>
  C10. A transfer whose temporary file already has the known, nonzero \<^verbatim>\<open>total_size\<close>,
  while no file of that size is at the final location, still sends a GET, with
  \<^verbatim>\<open>Range: bytes=total_size-\<close>. It ends \<open>Completed\<close> only if some response of the script
  streamed to its end without error, and until then the final location is as it was.
  If every response has a 4xx or 5xx status, each one is counted: after
  \<open>max_retries + 1\<close> of them the transfer ends \<open>Failed\<close>, the disk unchanged, all bytes
  still in the temporary file.
\<close>

theorem full_temp_file_still_fetches:
  assumes "get_file_size (head env) = Inr total_size" and "0 < total_size"
    and "temp s = Some b" and "length b = total_size"
    and "\<not> (final s \<noteq> None \<and> file_size (final s) = total_size)"
  shows "(\<exists>rest. snd (snd (download_file cfg env s)) = Head # Get (Some total_size) # rest) \<and>
         (fst (download_file cfg env s) = Completed \<longrightarrow>
            (\<exists>a \<in> set (attempts env). raised (fst a) = None)) \<and>
         (fst (download_file cfg env s) \<noteq> Completed \<longrightarrow>
            final (fst (snd (download_file cfg env s))) = final s) \<and>
         ((\<forall>a \<in> set (attempts env). http_error (fst a)) \<and>
          max_retries cfg < length (attempts env) \<longrightarrow>
            download_file cfg env s =
              (Failed, s,
               Head # concat (replicate (max_retries cfg + 1)
                                [Get (Some total_size), Sleep (retry_delay cfg)])))"
proof -
  let ?l = "\<lparr>start_bytes = total_size, headers = Some total_size, retries = 0\<rparr>"
  obtain out l' s' as where
    loop: "download_loop cfg total_size ?l s (attempts env) = (out, l', s', as)"
    by (cases "download_loop cfg total_size ?l s (attempts env)") auto
  from assms loop have df: "download_file cfg env s = (out, s', Head # as)"
    by (auto simp: download_file_def Let_def get_existing_download_size_def file_size_def)
  from loop_first [OF loop] have 1: "\<exists>rest. as = Get (Some total_size) # rest" by simp
  note 2 = loop_completed [OF loop]
  have 3: "(\<forall>a \<in> set (attempts env). http_error (fst a)) \<and>
          max_retries cfg < length (attempts env) \<longrightarrow>
            out = Failed \<and> s' = s \<and>
            as = concat (replicate (max_retries cfg + 1)
                   [Get (Some total_size), Sleep (retry_delay cfg)])"
  proof
    assume h: "(\<forall>a \<in> set (attempts env). http_error (fst a)) \<and>
          max_retries cfg < length (attempts env)"
    then have "max_retries cfg + 1 - retries ?l \<le> length (attempts env)" by simp
    from loop_http_errors [OF conjunct1 [OF h] this, of total_size s] loop
    show "out = Failed \<and> s' = s \<and>
            as = concat (replicate (max_retries cfg + 1)
                   [Get (Some total_size), Sleep (retry_delay cfg)])"
      by simp
  qed
  from 1 2 3 df show ?thesis by auto
qed

theorem full_temp_file_still_fetches_witness:
  "download_file default_config
     \<lparr>head = HeadResponse 200 (Parsed 4), attempts = replicate 11 (Response 416 [] None, [])\<rparr>
     \<lparr>temp = Some ''abcd'', final = None, bar_n = 4\<rparr>
   = (Failed, \<lparr>temp = Some ''abcd'', final = None, bar_n = 4\<rparr>,
      Head # concat (replicate 11 [Get (Some 4), Sleep 5]))"
  using full_temp_file_still_fetches [of
      "\<lparr>head = HeadResponse 200 (Parsed 4), attempts = replicate 11 (Response 416 [] None, [])\<rparr>"
      4 "\<lparr>temp = Some ''abcd'', final = None, bar_n = 4\<rparr>" "''abcd''" default_config]
  by (simp add: get_file_size_def raises_for_status_def default_config_def)

end
